theory Spec2Isabelle
  imports Main "HOL-Library.Sublist"
begin

text \<open>
  The query engine of the indexing service (package \<^verbatim>\<open>service\<close>: job keys, the job
  handler, \<open>Query\<close>), the comparison of provider results (package \<^verbatim>\<open>providerresults\<close>)
  and the iterator over the entries of an advertisement (package \<^verbatim>\<open>publisher\<close>), as
  functions of HOL, with the properties proved about them.
\<close>

section \<open>Byte strings, multihashes and content identifiers\<close>

text \<open>
  A Go \<^verbatim>\<open>[]byte\<close> and a Go \<^verbatim>\<open>string\<close> are both sequences of 8-bit values, and the
  service converts freely between them (\<^verbatim>\<open>jobKey(j.mh)\<close>, \<^verbatim>\<open>string(j.mh)\<close>).  A HOL
  \<^typ>\<open>char\<close> is one byte, so both are \<^typ>\<open>string\<close>; the nil slice is the empty list,
  which is what \<^verbatim>\<open>bytes.Equal\<close> and the string conversions make of it.
\<close>

type_synonym bytes = string
type_synonym multihash = bytes
type_synonym EncodedContextID = bytes
type_synonym did = string

text \<open>A \<^verbatim>\<open>cid.Cid\<close>: version, codec and multihash; \<^verbatim>\<open>Hash()\<close> reads the multihash.\<close>

datatype cid = Cid (Version: nat) (Type: nat) (Hash: multihash)

definition Raw :: nat where
  "Raw = 85"

definition NewCidV1 :: "nat \<Rightarrow> multihash \<Rightarrow> cid" where
  "NewCidV1 codecType mhash = Cid 1 codecType mhash"

text \<open>
  \<^verbatim>\<open>model.ProviderResult\<close>, with the three fields the repository reads.  \<^verbatim>\<open>Provider\<close> is
  a pointer to a \<^verbatim>\<open>peer.AddrInfo\<close> (type \<open>'p\<close>), so it may be nil.
\<close>

record 'p ProviderResult =
  ContextID :: bytes
  Metadata :: bytes
  Provider :: "'p option"

section \<open>Package providerresults: comparing provider results\<close>

text \<open>
  \<^verbatim>\<open>peer.AddrInfo.String()\<close> belongs to libp2p; it is the parameter \<open>String\<close>.
\<close>

definition equalProvider :: "('p \<Rightarrow> string) \<Rightarrow> 'p option \<Rightarrow> 'p option \<Rightarrow> bool" where
  "equalProvider String a b =
     (case a of
        None \<Rightarrow> b = None
      | Some x \<Rightarrow> (case b of None \<Rightarrow> False | Some y \<Rightarrow> String x = String y))"

definition Equals :: "('p \<Rightarrow> string) \<Rightarrow> 'p ProviderResult \<Rightarrow> 'p ProviderResult \<Rightarrow> bool" where
  "Equals String a b =
     (ContextID a = ContextID b \<and> Metadata a = Metadata b \<and>
      equalProvider String (Provider a) (Provider b))"

section \<open>Package service: jobs and job keys\<close>

type_synonym jobType = string
type_synonym jobKey = string

definition standardJobType :: jobType where
  "standardJobType = ''standard''"

definition locationJobType :: jobType where
  "locationJobType = ''location''"

definition equalsOrLocationJobType :: jobType where
  "equalsOrLocationJobType = ''equals_or_location''"

record 'p job =
  mh :: multihash
  indexForMh :: "multihash option"
  indexProviderRecord :: "'p ProviderResult option"
  jobType :: jobType

definition key :: "'p job \<Rightarrow> jobKey" where
  "key j =
     (let k = mh j @ jobType j
      in case indexForMh j of None \<Rightarrow> k | Some i \<Rightarrow> k @ i)"

section \<open>Package service: collaborators of the handler\<close>

text \<open>A Go \<^verbatim>\<open>error\<close> value.\<close>

datatype error = Err string

text \<open>
  What a call of the handler, of the walker or of \<open>Query\<close> does: it returns nil, it
  returns an error, or it panics (a nil pointer is dereferenced).
\<close>

datatype outcome = Done | Abort error | Panic

datatype url = URL string

definition fetchClaimUrl :: "'p \<Rightarrow> cid \<Rightarrow> url" where
  "fetchClaimUrl provider claimCid = URL []"

definition fetchRetrievalUrl :: "'p \<Rightarrow> cid \<Rightarrow> url" where
  "fetchRetrievalUrl provider shard = URL []"

text \<open>
  Modelled from the spec: package \<^verbatim>\<open>metadata\<close> is not among the sources.  The three
  protocol codes are named as the handler names them, and a protocol block carries the
  fields the handler reads: \<open>EqualsClaim {equals, claimCid}\<close>,
  \<open>IndexClaim {index, claimCid}\<close>, \<open>LocationCommitment {shard?, range?, claimCid}\<close>.
  \<open>OtherClaimMetadata\<close> stands for a protocol that implements \<^verbatim>\<open>HasClaimCid\<close> but is none
  of the three types of the handler's switch, \<open>OtherProtocol\<close> for one that does not
  implement \<^verbatim>\<open>HasClaimCid\<close>.  A byte range is an offset and an optional length.
\<close>

datatype Code = EqualsClaimID | IndexClaimID | LocationCommitmentID

type_synonym Range = "nat \<times> nat option"

datatype protocol =
    EqualsClaimMetadata cid cid
  | IndexClaimMetadata cid cid
  | LocationCommitmentMetadata "cid option" "Range option" cid
  | OtherClaimMetadata cid
  | OtherProtocol

text \<open>
  The type assertion \<^verbatim>\<open>protocol.(metadata.HasClaimCid)\<close> followed by \<^verbatim>\<open>GetClaimCid()\<close>:
  \<open>None\<close> when the assertion fails.
\<close>

fun GetClaimCid :: "protocol \<Rightarrow> cid option" where
  "GetClaimCid (EqualsClaimMetadata equals claim) = Some claim"
| "GetClaimCid (IndexClaimMetadata index claim) = Some claim"
| "GetClaimCid (LocationCommitmentMetadata shard rng claim) = Some claim"
| "GetClaimCid (OtherClaimMetadata claim) = Some claim"
| "GetClaimCid OtherProtocol = None"

text \<open>
  Modelled from the spec: package \<^verbatim>\<open>blobindex\<close> is not among the sources.  A sharded DAG
  index maps a shard to a map from multihash to a position (offset, length); it is
  iterable over shards, and the entries of a shard support the membership test \<open>Has\<close>.
  The list is the order in which one iteration enumerates the shards.
\<close>

type_synonym shardEntries = "(multihash \<times> (nat \<times> nat)) list"
type_synonym ShardedDagIndexView = "(multihash \<times> shardEntries) list"

definition Shards :: "ShardedDagIndexView \<Rightarrow> (multihash \<times> shardEntries) list" where
  "Shards index = index"

definition Has :: "shardEntries \<Rightarrow> multihash \<Rightarrow> bool" where
  "Has entries m = (m \<in> fst ` set entries)"

record Match =
  Subject :: "did list"

record Query =
  Hashes :: "multihash list"
  Match :: Match

record 'd QueryResult =
  Claims :: "cid \<rightharpoonup> 'd"
  Indexes :: "EncodedContextID \<rightharpoonup> ShardedDagIndexView"

record QueryKey =
  Hash :: multihash
  Spaces :: "did list"
  TargetClaims :: "Code list"

definition targetClaims :: "jobType \<Rightarrow> Code list" where
  "targetClaims t =
     (if t = standardJobType then [EqualsClaimID, IndexClaimID, LocationCommitmentID]
      else if t = locationJobType then [LocationCommitmentID]
      else if t = equalsOrLocationJobType then [IndexClaimID, LocationCommitmentID]
      else [])"

record 'd queryState =
  q :: Query
  qr :: "'d QueryResult"
  visits :: "jobKey set"

text \<open>
  The history of a query: every call the handler makes to a collaborator, with what the
  collaborator returned, in the order of the calls.  A call of \<^verbatim>\<open>ProviderIndex.Find\<close> is
  recorded with the job whose handler made it.
\<close>

datatype ('p, 'd) event =
    ProviderIndexFind "'p job" QueryKey "error + 'p ProviderResult list"
  | UnmarshalBinary bytes "error + protocol list"
  | LookupClaim cid url "error + 'd"
  | BlobIndexFind EncodedContextID "'p ProviderResult" url "Range option"
      "error + ShardedDagIndexView"

text \<open>
  The collaborators behind the interfaces \<^verbatim>\<open>ProviderIndex\<close>, \<^verbatim>\<open>ClaimLookup\<close> and
  \<^verbatim>\<open>BlobIndexLookup\<close>, the metadata decoder, and the \<^verbatim>\<open>spawn\<close> function the walker hands
  to the handler.  The three lookups are read-through caches over a network, so what
  they return may depend on the calls made before: they take the history.
  \<open>unmarshalBinary\<close> is \<^verbatim>\<open>md.UnmarshalBinary\<close> followed by \<^verbatim>\<open>md.Get(code)\<close> for each code of
  \<^verbatim>\<open>md.Protocols()\<close>, in that order.  \<open>spawnResult\<close> is the error \<^verbatim>\<open>spawn\<close> returns.
\<close>

record ('p, 'd) services =
  providerIndex :: "('p, 'd) event list \<Rightarrow> QueryKey \<Rightarrow> error + 'p ProviderResult list"
  unmarshalBinary :: "bytes \<Rightarrow> error + protocol list"
  claimLookup :: "('p, 'd) event list \<Rightarrow> cid \<Rightarrow> url \<Rightarrow> error + 'd"
  blobIndexLookup :: "('p, 'd) event list \<Rightarrow> EncodedContextID \<Rightarrow> 'p ProviderResult \<Rightarrow> url \<Rightarrow>
    Range option \<Rightarrow> error + ShardedDagIndexView"
  spawnResult :: "'p job \<Rightarrow> error option"

text \<open>
  What a run of the handler can change: the shared query state, the jobs handed to
  \<^verbatim>\<open>spawn\<close> (in order), and the history.
\<close>

record ('p, 'd) hstate =
  state :: "'d queryState"
  spawned :: "'p job list"
  calls :: "('p, 'd) event list"

text \<open>
  Modelled from the spec: package \<^verbatim>\<open>jobwalker\<close> is not among the sources.  \<open>CmpSwap\<close>
  atomically replaces the state by \<open>change state\<close> and returns true if \<open>willChange state\<close>,
  and returns false otherwise.
\<close>

definition CmpSwap :: "('s \<Rightarrow> bool) \<Rightarrow> ('s \<Rightarrow> 's) \<Rightarrow> 's \<Rightarrow> bool \<times> 's" where
  "CmpSwap willChange change s = (if willChange s then (True, change s) else (False, s))"

section \<open>Package service: the job handler\<close>

text \<open>A call \<^verbatim>\<open>spawn(j)\<close>, with the \<^verbatim>\<open>return err\<close> that follows a failure.\<close>

definition spawn :: "('p, 'd) services \<Rightarrow> 'p job \<Rightarrow> ('p, 'd) hstate \<Rightarrow> outcome \<times> ('p, 'd) hstate" where
  "spawn svc j st =
     (case spawnResult svc j of
        Some err \<Rightarrow> (Abort err, st\<lparr>spawned := spawned st @ [j]\<rparr>)
      | None \<Rightarrow> (Done, st\<lparr>spawned := spawned st @ [j]\<rparr>))"

text \<open>The loop over the shards of a fetched index.\<close>

fun spawnShards :: "('p, 'd) services \<Rightarrow> multihash \<Rightarrow> (multihash \<times> shardEntries) list \<Rightarrow>
    ('p, 'd) hstate \<Rightarrow> outcome \<times> ('p, 'd) hstate" where
  "spawnShards svc target [] st = (Done, st)"
| "spawnShards svc target ((shard, index) # rest) st =
     (if Has index target then
        (case spawn svc \<lparr>mh = shard, indexForMh = None, indexProviderRecord = None,
                         jobType = equalsOrLocationJobType\<rparr> st of
           (Done, st') \<Rightarrow> spawnShards svc target rest st'
         | (out, st') \<Rightarrow> (out, st'))
      else spawnShards svc target rest st)"

text \<open>The \<^verbatim>\<open>switch\<close> on the type of the protocol, after the claim has been stored.\<close>

fun handleTyped :: "('p, 'd) services \<Rightarrow> 'p job \<Rightarrow> 'p ProviderResult \<Rightarrow> 'p \<Rightarrow> protocol \<Rightarrow>
    ('p, 'd) hstate \<Rightarrow> outcome \<times> ('p, 'd) hstate" where
  "handleTyped svc j result provider (EqualsClaimMetadata equals claim) st =
     (if cid.Hash equals \<noteq> mh j then
        spawn svc \<lparr>mh = cid.Hash equals, indexForMh = None, indexProviderRecord = None,
                   jobType = locationJobType\<rparr> st
      else
        spawn svc \<lparr>mh = ContextID result, indexForMh = None, indexProviderRecord = None,
                   jobType = locationJobType\<rparr> st)"
| "handleTyped svc j result provider (IndexClaimMetadata index claim) st =
     spawn svc \<lparr>mh = cid.Hash index, indexForMh = Some (mh j),
                indexProviderRecord = Some result, jobType = equalsOrLocationJobType\<rparr> st"
| "handleTyped svc j result provider (LocationCommitmentMetadata shard rng claim) st =
     (case indexForMh j of
        None \<Rightarrow> (Done, st)
      | Some target \<Rightarrow>
          (let shard' = (case shard of None \<Rightarrow> NewCidV1 Raw (mh j) | Some c \<Rightarrow> c);
               u = fetchRetrievalUrl provider shard'
           in case indexProviderRecord j of
                None \<Rightarrow> (Panic, st)
              | Some record \<Rightarrow>
                  (let found = blobIndexLookup svc (calls st) (ContextID result) record u rng;
                       st1 = st\<lparr>calls := calls st @
                               [BlobIndexFind (ContextID result) record u rng found]\<rparr>
                   in case found of
                        Inl err \<Rightarrow> (Abort err, st1)
                      | Inr index \<Rightarrow>
                          (let st2 = st1\<lparr>state := snd (CmpSwap
                                 (\<lambda>s. Indexes (qr s) (ContextID result) = None)
                                 (\<lambda>s. s\<lparr>qr := (qr s)\<lparr>Indexes :=
                                          (Indexes (qr s))(ContextID result \<mapsto> index)\<rparr>\<rparr>)
                                 (state st1))\<rparr>
                           in spawnShards svc target (Shards index) st2))))"
| "handleTyped svc j result provider (OtherClaimMetadata claim) st = (Done, st)"
| "handleTyped svc j result provider OtherProtocol st = (Done, st)"

text \<open>One round of the loop over the protocols of a provider record.\<close>

definition handleProtocol :: "('p, 'd) services \<Rightarrow> 'p job \<Rightarrow> 'p ProviderResult \<Rightarrow> protocol \<Rightarrow>
    ('p, 'd) hstate \<Rightarrow> outcome \<times> ('p, 'd) hstate" where
  "handleProtocol svc j result protocol st =
     (case GetClaimCid protocol of
        None \<Rightarrow> (Done, st)
      | Some claimCid \<Rightarrow>
          (case Provider result of
             None \<Rightarrow> (Panic, st)
           | Some provider \<Rightarrow>
               (let u = fetchClaimUrl provider claimCid;
                    found = claimLookup svc (calls st) claimCid u;
                    st1 = st\<lparr>calls := calls st @ [LookupClaim claimCid u found]\<rparr>
                in case found of
                     Inl err \<Rightarrow> (Abort err, st1)
                   | Inr claim \<Rightarrow>
                       (let st2 = st1\<lparr>state := snd (CmpSwap
                              (\<lambda>s. Claims (qr s) claimCid = None)
                              (\<lambda>s. s\<lparr>qr := (qr s)\<lparr>Claims :=
                                       (Claims (qr s))(claimCid \<mapsto> claim)\<rparr>\<rparr>)
                              (state st1))\<rparr>
                        in handleTyped svc j result provider protocol st2))))"

fun handleProtocols :: "('p, 'd) services \<Rightarrow> 'p job \<Rightarrow> 'p ProviderResult \<Rightarrow> protocol list \<Rightarrow>
    ('p, 'd) hstate \<Rightarrow> outcome \<times> ('p, 'd) hstate" where
  "handleProtocols svc j result [] st = (Done, st)"
| "handleProtocols svc j result (protocol # rest) st =
     (case handleProtocol svc j result protocol st of
        (Done, st') \<Rightarrow> handleProtocols svc j result rest st'
      | (out, st') \<Rightarrow> (out, st'))"

text \<open>The loop over the provider records that \<^verbatim>\<open>ProviderIndex.Find\<close> returned.\<close>

fun handleResults :: "('p, 'd) services \<Rightarrow> 'p job \<Rightarrow> 'p ProviderResult list \<Rightarrow>
    ('p, 'd) hstate \<Rightarrow> outcome \<times> ('p, 'd) hstate" where
  "handleResults svc j [] st = (Done, st)"
| "handleResults svc j (result # rest) st =
     (let decoded = unmarshalBinary svc (Metadata result);
          st1 = st\<lparr>calls := calls st @ [UnmarshalBinary (Metadata result) decoded]\<rparr>
      in case decoded of
           Inl err \<Rightarrow> (Abort err, st1)
         | Inr protocols \<Rightarrow>
             (case handleProtocols svc j result protocols st1 of
                (Done, st') \<Rightarrow> handleResults svc j rest st'
              | (out, st') \<Rightarrow> (out, st')))"

definition jobHandler :: "('p, 'd) services \<Rightarrow> 'p job \<Rightarrow> ('p, 'd) hstate \<Rightarrow>
    outcome \<times> ('p, 'd) hstate" where
  "jobHandler svc j st =
     (case CmpSwap (\<lambda>s. key j \<notin> visits s) (\<lambda>s. s\<lparr>visits := insert (key j) (visits s)\<rparr>)
             (state st) of
        (False, s') \<Rightarrow> (Done, st)
      | (True, s') \<Rightarrow>
          (let st1 = st\<lparr>state := s'\<rparr>;
               k = \<lparr>Hash = mh j, Spaces = Subject (Match (q (state st1))),
                    TargetClaims = targetClaims (jobType j)\<rparr>;
               found = providerIndex svc (calls st1) k;
               st2 = st1\<lparr>calls := calls st1 @ [ProviderIndexFind j k found]\<rparr>
           in case found of
                Inl err \<Rightarrow> (Abort err, st2)
              | Inr results \<Rightarrow> handleResults svc j results st2))"

section \<open>Package jobwalker and Query\<close>

text \<open>
  Modelled from the spec: the walkers of package \<^verbatim>\<open>jobwalker\<close> are not among the sources.
  This is the serial mode: it processes the initial jobs and everything they spawn on a
  single path; \<^verbatim>\<open>spawn\<close> enqueues for later execution in the current call; the walk
  returns when the queue is empty; a handler that returns an error makes the walk
  return that error with the state accumulated so far.  The queue is the field
  \<open>spawned\<close>.  A walk need not end (the collaborators may name new multihashes for
  ever), so it runs on fuel, one unit for each job taken from the queue.  The outcome
  \<open>None\<close> is a walk that has not returned when the fuel is spent; the state is then the
  state it has reached.
\<close>

fun Walk :: "nat \<Rightarrow> ('p, 'd) services \<Rightarrow> ('p, 'd) hstate \<Rightarrow> outcome option \<times> ('p, 'd) hstate" where
  "Walk 0 svc st =
     (case spawned st of
        [] \<Rightarrow> (Some Done, st)
      | j # queue \<Rightarrow> (None, st))"
| "Walk (Suc fuel) svc st =
     (case spawned st of
        [] \<Rightarrow> (Some Done, st)
      | j # queue \<Rightarrow>
          (case jobHandler svc j (st\<lparr>spawned := queue\<rparr>) of
             (Done, st') \<Rightarrow> Walk fuel svc st'
           | (out, st') \<Rightarrow> (Some out, st')))"

definition initialState :: "Query \<Rightarrow> ('p, 'd) hstate" where
  "initialState query =
     \<lparr>state = \<lparr>q = query, qr = \<lparr>Claims = Map.empty, Indexes = Map.empty\<rparr>, visits = {}\<rparr>,
      spawned = map (\<lambda>h. \<lparr>mh = h, indexForMh = None, indexProviderRecord = None,
                           jobType = standardJobType\<rparr>) (Hashes query),
      calls = []\<rparr>"

definition Query :: "nat \<Rightarrow> ('p, 'd) services \<Rightarrow> Query \<Rightarrow> ('d QueryResult \<times> outcome) option" where
  "Query fuel svc query =
     (case Walk fuel svc (initialState query) of
        (None, st) \<Rightarrow> None
      | (Some out, st) \<Rightarrow> Some (qr (state st), out))"

section \<open>Reading the history of a query\<close>

text \<open>The jobs whose handlers called \<^verbatim>\<open>ProviderIndex.Find\<close>, and the hashes they asked for.\<close>

definition findJobs :: "('p, 'd) event list \<Rightarrow> 'p job list" where
  "findJobs log =
     concat (map (\<lambda>ev. case ev of ProviderIndexFind j k found \<Rightarrow> [j] | _ \<Rightarrow> []) log)"

definition findHashes :: "('p, 'd) event list \<Rightarrow> multihash list" where
  "findHashes log =
     concat (map (\<lambda>ev. case ev of ProviderIndexFind j k found \<Rightarrow> [Hash k] | _ \<Rightarrow> []) log)"

text \<open>The error a recorded call returned, if it returned one.\<close>

fun failure :: "('p, 'd) event \<Rightarrow> error option" where
  "failure (ProviderIndexFind j k found) = (case found of Inl err \<Rightarrow> Some err | Inr v \<Rightarrow> None)"
| "failure (UnmarshalBinary m found) = (case found of Inl err \<Rightarrow> Some err | Inr v \<Rightarrow> None)"
| "failure (LookupClaim c u found) = (case found of Inl err \<Rightarrow> Some err | Inr v \<Rightarrow> None)"
| "failure (BlobIndexFind c r u rng found) =
     (case found of Inl err \<Rightarrow> Some err | Inr v \<Rightarrow> None)"

definition failures :: "('p, 'd) event list \<Rightarrow> error list" where
  "failures log = concat (map (\<lambda>ev. case failure ev of Some err \<Rightarrow> [err] | None \<Rightarrow> []) log)"

text \<open>The claims and the indexes that were fetched successfully.\<close>

definition fetchedClaims :: "('p, 'd) event list \<Rightarrow> cid list" where
  "fetchedClaims log =
     concat (map (\<lambda>ev. case ev of
                         LookupClaim c u found \<Rightarrow> (case found of Inl err \<Rightarrow> [] | Inr v \<Rightarrow> [c])
                       | _ \<Rightarrow> []) log)"

definition fetchedIndexes :: "('p, 'd) event list \<Rightarrow> EncodedContextID list" where
  "fetchedIndexes log =
     concat (map (\<lambda>ev. case ev of
                         BlobIndexFind c r u rng found \<Rightarrow>
                           (case found of Inl err \<Rightarrow> [] | Inr v \<Rightarrow> [c])
                       | _ \<Rightarrow> []) log)"

text \<open>
  \<open>ended out log\<close>: no call of \<open>log\<close> returned an error, or only the last one did and
  \<open>out\<close> is that error.
\<close>

definition ended :: "outcome \<Rightarrow> ('p, 'd) event list \<Rightarrow> bool" where
  "ended out log =
     (failures log = [] \<or>
      (\<exists>log' ev err. log = log' @ [ev] \<and> failures log' = [] \<and> failure ev = Some err \<and>
         out = Abort err))"

text \<open>
  \<open>effect st out st'\<close> sums up a piece of the handler that starts in \<open>st\<close> and ends in
  \<open>st'\<close> with \<open>out\<close> and that does not call \<^verbatim>\<open>ProviderIndex.Find\<close>: the history is
  extended, the query and the visits are untouched, and the claims and indexes grow by
  exactly those fetched successfully.
\<close>

definition effect :: "('p, 'd) hstate \<Rightarrow> outcome \<Rightarrow> ('p, 'd) hstate \<Rightarrow> bool" where
  "effect st out st' =
     (\<exists>log. calls st' = calls st @ log \<and> findJobs log = [] \<and> ended out log \<and>
        visits (state st') = visits (state st) \<and> q (state st') = q (state st) \<and>
        dom (Claims (qr (state st'))) = dom (Claims (qr (state st))) \<union> set (fetchedClaims log) \<and>
        dom (Indexes (qr (state st'))) =
          dom (Indexes (qr (state st))) \<union> set (fetchedIndexes log))"

text \<open>The invariant of a walk that started from the initial state of a query.\<close>

definition walkInv :: "('p, 'd) hstate \<Rightarrow> bool" where
  "walkInv st =
     (visits (state st) = key ` set (findJobs (calls st)) \<and>
      distinct (map key (findJobs (calls st))) \<and>
      dom (Claims (qr (state st))) = set (fetchedClaims (calls st)) \<and>
      dom (Indexes (qr (state st))) = set (fetchedIndexes (calls st)))"

section \<open>Package publisher: the entries iterator\<close>

text \<open>
  An \<^verbatim>\<open>ipld.Link\<close> is identified by its \<^verbatim>\<open>String()\<close> rendering, a nil link is \<open>None\<close>.  An
  entry chunk holds its multihashes and the link to the next chunk.
\<close>

type_synonym link = string

record EntryChunk =
  entEntries :: "multihash list"
  entNext :: "link option"

definition linksCachePath :: string where
  "linksCachePath = ''/cache/links''"

text \<open>
  \<^verbatim>\<open>Key.ChildString\<close> of go-datastore appends \<open>/\<close> and the string and then cleans the
  path.  The rendering of a CID link has no empty segment, no \<open>.\<close> and no \<open>..\<close>, so
  cleaning changes nothing for it and is left out.
\<close>

definition ChildString :: "string \<Rightarrow> string \<Rightarrow> string" where
  "ChildString k s = k @ ''/'' @ s"

text \<open>
  The pairs handed to \<^verbatim>\<open>yield\<close>, in order: \<open>(d, None)\<close> is \<^verbatim>\<open>yield(d, nil)\<close> and
  \<open>([], Some err)\<close> is \<^verbatim>\<open>yield(nil, err)\<close>.  The consumer is the function \<open>yield\<close>: given
  everything it has been handed so far, the current pair last, it says whether the
  iteration goes on.
\<close>

type_synonym yielded = "(multihash \<times> error option) list"

text \<open>The inner loop over the entries of one chunk; \<open>False\<close> when the consumer stopped.\<close>

fun yieldEntries :: "(yielded \<Rightarrow> bool) \<Rightarrow> multihash list \<Rightarrow> yielded \<Rightarrow> bool \<times> yielded" where
  "yieldEntries yield [] out = (True, out)"
| "yieldEntries yield (d # ds) out =
     (if \<not> yield (out @ [(d, None)]) then (False, out @ [(d, None)])
      else yieldEntries yield ds (out @ [(d, None)]))"

text \<open>
  The outer loop \<^verbatim>\<open>for cur != nil\<close>.  \<open>get\<close> is \<^verbatim>\<open>ds.Get\<close> on a datastore key and \<open>decode\<close>
  is \<^verbatim>\<open>schema.BytesToEntryChunk(asCID(cur), v)\<close>.  Nothing bounds the chain of links, so
  the loop is a partial function: \<open>None\<close> is an iteration that never returns.
\<close>

partial_function (option) EntriesLoop :: "(string \<Rightarrow> error + bytes) \<Rightarrow>
    (link \<Rightarrow> bytes \<Rightarrow> error + EntryChunk) \<Rightarrow> (yielded \<Rightarrow> bool) \<Rightarrow> link option \<Rightarrow> yielded \<Rightarrow>
    yielded option" where
  "EntriesLoop get decode yield cur out =
     (case cur of
        None \<Rightarrow> Some out
      | Some l \<Rightarrow>
          (case get (ChildString linksCachePath l) of
             Inl err \<Rightarrow> Some (out @ [([], Some err)])
           | Inr v \<Rightarrow>
               (case decode l v of
                  Inl err \<Rightarrow> Some (out @ [([], Some err)])
                | Inr ent \<Rightarrow>
                    (case yieldEntries yield (entEntries ent) out of
                       (continue, out') \<Rightarrow>
                         if \<not> continue then Some out'
                         else EntriesLoop get decode yield (entNext ent) out'))))"

definition Entries :: "(string \<Rightarrow> error + bytes) \<Rightarrow> (link \<Rightarrow> bytes \<Rightarrow> error + EntryChunk) \<Rightarrow>
    link option \<Rightarrow> (yielded \<Rightarrow> bool) \<Rightarrow> yielded option" where
  "Entries get decode root yield = EntriesLoop get decode yield root []"

text \<open>
  The chain of entry chunks from a link: \<open>entryChain get decode cur chunks end\<close> holds when
  following the \<open>Next\<close> links from \<open>cur\<close> reads the chunks \<open>chunks\<close>, in this order, and
  then either reaches a nil link (\<open>end = None\<close>) or a link whose datastore read or
  decoding fails with \<open>err\<close> (\<open>end = Some err\<close>).
\<close>

inductive entryChain :: "(string \<Rightarrow> error + bytes) \<Rightarrow> (link \<Rightarrow> bytes \<Rightarrow> error + EntryChunk) \<Rightarrow>
    link option \<Rightarrow> EntryChunk list \<Rightarrow> error option \<Rightarrow> bool"
  for get :: "string \<Rightarrow> error + bytes" and decode :: "link \<Rightarrow> bytes \<Rightarrow> error + EntryChunk" where
  chain_nil: "entryChain get decode None [] None"
| chain_get_fails:
    "get (ChildString linksCachePath l) = Inl err \<Longrightarrow> entryChain get decode (Some l) [] (Some err)"
| chain_decode_fails:
    "get (ChildString linksCachePath l) = Inr v \<Longrightarrow> decode l v = Inl err \<Longrightarrow>
     entryChain get decode (Some l) [] (Some err)"
| chain_next:
    "get (ChildString linksCachePath l) = Inr v \<Longrightarrow> decode l v = Inr ent \<Longrightarrow>
     entryChain get decode (entNext ent) chunks end \<Longrightarrow>
     entryChain get decode (Some l) (ent # chunks) end"

text \<open>
  What a consumer \<open>yield\<close> lets through of the pairs \<open>xs\<close> offered after \<open>out\<close>: every
  pair up to and including the first one at which it stops the iteration.
\<close>

fun cut :: "(yielded \<Rightarrow> bool) \<Rightarrow> yielded \<Rightarrow> yielded \<Rightarrow> yielded" where
  "cut yield out [] = out"
| "cut yield out (x # xs) =
     (if yield (out @ [x]) then cut yield (out @ [x]) xs else out @ [x])"

section \<open>A small backend for concrete runs\<close>

text \<open>
  Providers and claims are strings here.  Under \<open>H1\<close> the provider index holds a record
  with an index claim for the index \<open>HI\<close>; under \<open>HI\<close> a record whose metadata lists an
  unknown protocol and a location commitment; under \<open>H2\<close> a record with an equals claim
  that names \<open>H2\<close> itself and has \<open>H2\<close> as its context identifier.  The provider index
  honours the target claims of a query.  The index blob has the shard \<open>S1\<close>, which
  contains \<open>H1\<close>, and the shard \<open>S2\<close>, which does not.
\<close>

definition recordIndex :: "string ProviderResult" where
  "recordIndex = \<lparr>ContextID = ''ctx-index'', Metadata = ''index'', Provider = Some ''peer-a''\<rparr>"

definition recordLocation :: "string ProviderResult" where
  "recordLocation =
     \<lparr>ContextID = ''ctx-location'', Metadata = ''location'', Provider = Some ''peer-b''\<rparr>"

definition recordEquals :: "string ProviderResult" where
  "recordEquals = \<lparr>ContextID = ''H2'', Metadata = ''equals'', Provider = Some ''peer-c''\<rparr>"

definition scenarioIndex :: ShardedDagIndexView where
  "scenarioIndex =
     [(''S1'', [(''H1'', (0, 10)), (''Hx'', (10, 10))]), (''S2'', [(''Hy'', (0, 10))])]"

definition scenarioFind :: "QueryKey \<Rightarrow> error + string ProviderResult list" where
  "scenarioFind k =
     (if Hash k = ''H1'' \<and> IndexClaimID \<in> set (TargetClaims k) then Inr [recordIndex]
      else if Hash k = ''HI'' \<and> LocationCommitmentID \<in> set (TargetClaims k)
        then Inr [recordLocation]
      else if Hash k = ''H2'' \<and> EqualsClaimID \<in> set (TargetClaims k) then Inr [recordEquals]
      else Inr [])"

definition scenarioDecode :: "bytes \<Rightarrow> error + protocol list" where
  "scenarioDecode m =
     (if m = ''index'' then Inr [IndexClaimMetadata (Cid 1 Raw ''HI'') (Cid 1 Raw ''C1'')]
      else if m = ''location''
        then Inr [OtherProtocol, LocationCommitmentMetadata None None (Cid 1 Raw ''C2'')]
      else if m = ''equals''
        then Inr [EqualsClaimMetadata (Cid 1 Raw ''H2'') (Cid 1 Raw ''C3'')]
      else Inl (Err ''malformed metadata''))"

definition scenarioServices :: "(string, string) services" where
  "scenarioServices =
     \<lparr>providerIndex = (\<lambda>log. scenarioFind),
      unmarshalBinary = scenarioDecode,
      claimLookup = (\<lambda>log c u. Inr ''claim''),
      blobIndexLookup = (\<lambda>log c r u rng. Inr scenarioIndex),
      spawnResult = (\<lambda>j. None)\<rparr>"

text \<open>The same backend, except that the claim \<open>C2\<close> cannot be fetched.\<close>

definition failingServices :: "(string, string) services" where
  "failingServices =
     scenarioServices\<lparr>claimLookup :=
       (\<lambda>log c u. if c = Cid 1 Raw ''C2'' then Inl (Err ''unreachable'') else Inr ''claim'')\<rparr>"

definition jobForIndex :: "string job" where
  "jobForIndex =
     \<lparr>mh = ''HI'', indexForMh = Some ''H1'', indexProviderRecord = Some recordIndex,
      jobType = equalsOrLocationJobType\<rparr>"

definition jobStandard :: "multihash \<Rightarrow> string job" where
  "jobStandard h =
     \<lparr>mh = h, indexForMh = None, indexProviderRecord = None, jobType = standardJobType\<rparr>"

definition queryFor :: "multihash list \<Rightarrow> Query" where
  "queryFor hs = \<lparr>Hashes = hs, Match = \<lparr>Subject = []\<rparr>\<rparr>"

text \<open>
  A datastore with the two entry chunks \<open>a\<close> and \<open>b\<close>, the second of which ends the
  chain, and a consumer that never stops the iteration.
\<close>

definition storeGet :: "string \<Rightarrow> error + bytes" where
  "storeGet k =
     (if k = ''/cache/links/a'' then Inr ''chunk-a''
      else if k = ''/cache/links/b'' then Inr ''chunk-b''
      else Inl (Err ''datastore: key not found''))"

definition storeDecode :: "link \<Rightarrow> bytes \<Rightarrow> error + EntryChunk" where
  "storeDecode l v =
     (if v = ''chunk-a'' then Inr \<lparr>entEntries = [''h1'', ''h2''], entNext = Some ''b''\<rparr>
      else if v = ''chunk-b'' then Inr \<lparr>entEntries = [''h3''], entNext = None\<rparr>
      else Inl (Err ''malformed entry chunk''))"

definition consumeAll :: "yielded \<Rightarrow> bool" where
  "consumeAll ys = True"

text \<open>
  The jobs of a list that are handed to \<^verbatim>\<open>spawn\<close> by a loop that returns at the first
  error of \<^verbatim>\<open>spawn\<close>: every job up to and including the first one for which \<^verbatim>\<open>spawn\<close>
  returns an error; and that error, if there is one.
\<close>

fun untilError :: "('j \<Rightarrow> error option) \<Rightarrow> 'j list \<Rightarrow> 'j list" where
  "untilError r [] = []"
| "untilError r (j # js) = (case r j of None \<Rightarrow> j # untilError r js | Some err \<Rightarrow> [j])"

fun firstError :: "('j \<Rightarrow> error option) \<Rightarrow> 'j list \<Rightarrow> error option" where
  "firstError r [] = None"
| "firstError r (j # js) = (case r j of None \<Rightarrow> firstError r js | Some err \<Rightarrow> Some err)"

text \<open>
  The small backend with an index of three shards, of which \<open>S1\<close> and \<open>S3\<close> contain
  \<open>H1\<close>, and with a \<^verbatim>\<open>spawn\<close> that returns an error for the job of \<open>S1\<close>.
\<close>

definition threeShardIndex :: ShardedDagIndexView where
  "threeShardIndex =
     [(''S1'', [(''H1'', (0, 10))]), (''S2'', [(''Hy'', (0, 10))]),
      (''S3'', [(''H1'', (20, 10))])]"

definition cancelledServices :: "(string, string) services" where
  "cancelledServices =
     scenarioServices\<lparr>blobIndexLookup := (\<lambda>log c r u rng. Inr threeShardIndex),
       spawnResult := (\<lambda>j. if mh j = ''S1'' then Some (Err ''context canceled'') else None)\<rparr>"

section \<open>Properties of job keys\<close>

lemma jobType_prefix_free:
  assumes "t1 \<in> {standardJobType, locationJobType, equalsOrLocationJobType}"
    and "t2 \<in> {standardJobType, locationJobType, equalsOrLocationJobType}"
    and "t1 @ r1 = t2 @ r2"
  shows "t1 = t2"
  using assms
  by (auto simp: standardJobType_def locationJobType_def equalsOrLocationJobType_def)

lemma append_eq_no_strict_prefix:
  assumes "a @ r = b @ s" and "\<not> strict_prefix a b" and "\<not> strict_prefix b a"
  shows "a = b"
proof -
  have "prefix a (b @ s)" using assms(1) by (metis prefixI)
  moreover have "prefix b (b @ s)" by simp
  ultimately have "prefix a b \<or> prefix b a" by (rule prefix_same_cases)
  then show ?thesis using assms(2,3) by (auto simp: strict_prefix_def)
qed

text \<open>
  C1 (as stated) fails: the key is the plain concatenation of the three byte strings, so
  two jobs that differ in \<open>mh\<close> and in \<open>indexForMh\<close> can share a key.  The job
  \<open>{mh: "astandard", standard}\<close> and the job \<open>{mh: "a", indexForMh: "standard", standard}\<close>
  both have the key \<open>"astandardstandard"\<close>.
\<close>

theorem key_identity_counterexample:
  "\<not> (key \<lparr>mh = ''astandard'', indexForMh = None,
             indexProviderRecord = (None :: unit ProviderResult option),
             jobType = standardJobType\<rparr>
        = key \<lparr>mh = ''a'', indexForMh = Some ''standard'',
               indexProviderRecord = (None :: unit ProviderResult option),
               jobType = standardJobType\<rparr>
      \<longleftrightarrow>
        (''astandard'' = ''a'' \<and> standardJobType = standardJobType \<and>
         (None :: multihash option) = Some ''standard''))"
  by (simp add: key_def standardJobType_def)

text \<open>
  C1 (amended): jobs with equal \<open>mh\<close>, \<open>jobType\<close> and \<open>indexForMh\<close> have equal keys, and
  jobs with equal keys have equal \<open>mh\<close>, \<open>jobType\<close> and \<open>indexForMh\<close> whenever neither
  \<open>mh\<close> is a proper prefix of the other (as for two well-formed, self-delimiting
  multihashes, or two byte strings of one length), both job types are among the three
  declared constants, and an \<open>indexForMh\<close> that is present is not empty.
\<close>

theorem key_identity:
  assumes "\<not> strict_prefix (mh j1) (mh j2)" and "\<not> strict_prefix (mh j2) (mh j1)"
    and "jobType j1 \<in> {standardJobType, locationJobType, equalsOrLocationJobType}"
    and "jobType j2 \<in> {standardJobType, locationJobType, equalsOrLocationJobType}"
    and "indexForMh j1 \<noteq> Some []" and "indexForMh j2 \<noteq> Some []"
  shows "key j1 = key j2 \<longleftrightarrow>
           (mh j1 = mh j2 \<and> jobType j1 = jobType j2 \<and> indexForMh j1 = indexForMh j2)"
proof
  assume "mh j1 = mh j2 \<and> jobType j1 = jobType j2 \<and> indexForMh j1 = indexForMh j2"
  then show "key j1 = key j2" by (simp add: key_def)
next
  define r1 where "r1 = (case indexForMh j1 of None \<Rightarrow> [] | Some i \<Rightarrow> i)"
  define r2 where "r2 = (case indexForMh j2 of None \<Rightarrow> [] | Some i \<Rightarrow> i)"
  have k1: "key j1 = mh j1 @ (jobType j1 @ r1)"
    by (simp add: key_def r1_def split: option.splits)
  have k2: "key j2 = mh j2 @ (jobType j2 @ r2)"
    by (simp add: key_def r2_def split: option.splits)
  assume eq: "key j1 = key j2"
  then have m: "mh j1 = mh j2"
    using assms(1,2) unfolding k1 k2 by (rule append_eq_no_strict_prefix)
  with eq have rest: "jobType j1 @ r1 = jobType j2 @ r2"
    unfolding k1 k2 by simp
  with assms(3,4) have t: "jobType j1 = jobType j2"
    by (rule jobType_prefix_free)
  with rest have "r1 = r2" by simp
  with assms(5,6) have "indexForMh j1 = indexForMh j2"
    by (auto simp: r1_def r2_def split: option.splits)
  with m t show "mh j1 = mh j2 \<and> jobType j1 = jobType j2 \<and> indexForMh j1 = indexForMh j2"
    by simp
qed

theorem key_identity_witness:
  "\<not> strict_prefix ''ab'' ''cd'' \<and> \<not> strict_prefix ''cd'' ''ab'' \<and>
   key \<lparr>mh = ''ab'', indexForMh = Some ''x'',
        indexProviderRecord = (None :: unit ProviderResult option),
        jobType = locationJobType\<rparr>
   \<noteq> key \<lparr>mh = ''cd'', indexForMh = Some ''x'',
          indexProviderRecord = (None :: unit ProviderResult option),
          jobType = locationJobType\<rparr>"
  using key_identity
    [of "\<lparr>mh = ''ab'', indexForMh = Some ''x'',
          indexProviderRecord = (None :: unit ProviderResult option),
          jobType = locationJobType\<rparr>"
        "\<lparr>mh = ''cd'', indexForMh = Some ''x'',
          indexProviderRecord = (None :: unit ProviderResult option),
          jobType = locationJobType\<rparr>"]
  by simp

section \<open>Properties of the provider result comparison\<close>

text \<open>
  C9: \<open>Equals a b\<close> holds exactly when the context identifiers are byte-equal, the
  metadata are byte-equal, and the providers are both nil or both present with equal
  \<open>String()\<close> renderings; a nil provider is never equal to a present one (in either
  order), and every provider result equals itself.
\<close>

theorem Equals_characterisation:
  "(Equals String a b \<longleftrightarrow>
      ContextID a = ContextID b \<and> Metadata a = Metadata b \<and>
      ((Provider a = None \<and> Provider b = None) \<or>
       (\<exists>x y. Provider a = Some x \<and> Provider b = Some y \<and> String x = String y)))
   \<and> \<not> Equals String (a\<lparr>Provider := None\<rparr>) (b\<lparr>Provider := Some p\<rparr>)
   \<and> \<not> Equals String (a\<lparr>Provider := Some p\<rparr>) (b\<lparr>Provider := None\<rparr>)
   \<and> Equals String a a"
  by (auto simp: Equals_def equalProvider_def split: option.splits)

section \<open>Summaries of the parts of the handler\<close>

lemma findJobs_append [simp]: "findJobs (a @ b) = findJobs a @ findJobs b"
  and findJobs_Nil [simp]: "findJobs [] = []"
  by (simp_all add: findJobs_def)

lemma failures_append [simp]: "failures (a @ b) = failures a @ failures b"
  and failures_Nil [simp]: "failures [] = []"
  by (simp_all add: failures_def)

lemma fetchedClaims_append [simp]: "fetchedClaims (a @ b) = fetchedClaims a @ fetchedClaims b"
  and fetchedClaims_Nil [simp]: "fetchedClaims [] = []"
  by (simp_all add: fetchedClaims_def)

lemma fetchedIndexes_append [simp]: "fetchedIndexes (a @ b) = fetchedIndexes a @ fetchedIndexes b"
  and fetchedIndexes_Nil [simp]: "fetchedIndexes [] = []"
  by (simp_all add: fetchedIndexes_def)

lemma ended_Nil [simp]: "ended out []"
  by (simp add: ended_def)

lemma ended_Done: "ended Done log \<Longrightarrow> failures log = []"
  by (auto simp: ended_def)

lemma ended_append: "failures a = [] \<Longrightarrow> ended out b \<Longrightarrow> ended out (a @ b)"
  unfolding ended_def
proof (elim disjE exE conjE)
  assume "failures a = []" "failures b = []"
  then show "failures (a @ b) = [] \<or> (\<exists>log' ev err. a @ b = log' @ [ev] \<and> failures log' = [] \<and> failure ev = Some err \<and> out = Abort err)"
    by simp
next
  fix log' ev err
  assume "failures a = []" "b = log' @ [ev]" "failures log' = []" "failure ev = Some err" "out = Abort err"
  then have "a @ b = (a @ log') @ [ev] \<and> failures (a @ log') = [] \<and> failure ev = Some err \<and> out = Abort err"
    by simp
  then show "failures (a @ b) = [] \<or> (\<exists>log' ev err. a @ b = log' @ [ev] \<and> failures log' = [] \<and> failure ev = Some err \<and> out = Abort err)"
    by blast
qed

lemma effect_refl [simp]: "effect st out st"
  by (simp add: effect_def)

lemma effect_trans:
  assumes "effect st Done st1" and "effect st1 out st2"
  shows "effect st out st2"
proof -
  from assms(1) obtain a where a: "calls st1 = calls st @ a" "findJobs a = []" "ended Done a"
    "visits (state st1) = visits (state st)" "q (state st1) = q (state st)"
    "dom (Claims (qr (state st1))) = dom (Claims (qr (state st))) \<union> set (fetchedClaims a)"
    "dom (Indexes (qr (state st1))) = dom (Indexes (qr (state st))) \<union> set (fetchedIndexes a)"
    unfolding effect_def by blast
  from assms(2) obtain b where b: "calls st2 = calls st1 @ b" "findJobs b = []" "ended out b"
    "visits (state st2) = visits (state st1)" "q (state st2) = q (state st1)"
    "dom (Claims (qr (state st2))) = dom (Claims (qr (state st1))) \<union> set (fetchedClaims b)"
    "dom (Indexes (qr (state st2))) = dom (Indexes (qr (state st1))) \<union> set (fetchedIndexes b)"
    unfolding effect_def by blast
  have "ended out (a @ b)" using a(3) b(3) by (simp add: ended_append ended_Done)
  with a b show ?thesis
    unfolding effect_def by (intro exI[of _ "a @ b"]) (simp add: Un_assoc)
qed

lemma spawn_effect: "spawn svc j st = (out, st') \<Longrightarrow> effect st out st'"
  by (auto simp: spawn_def effect_def split: option.splits)

lemma spawnShards_effect: "spawnShards svc target shards st = (out, st') \<Longrightarrow> effect st out st'"
proof (induction shards arbitrary: st out st')
  case Nil
  then show ?case by simp
next
  case (Cons a shards)
  obtain shard index where a: "a = (shard, index)" by (cases a)
  show ?case
  proof (cases "Has index target")
    case False
    with Cons a show ?thesis by simp
  next
    case True
    obtain out1 st1 where s: "spawn svc \<lparr>mh = shard, indexForMh = None, indexProviderRecord = None,
                         jobType = equalsOrLocationJobType\<rparr> st = (out1, st1)" by fastforce
    then have e1: "effect st out1 st1" by (rule spawn_effect)
    show ?thesis
    proof (cases "out1 = Done")
      case True
      with Cons.prems a \<open>Has index target\<close> s have "spawnShards svc target shards st1 = (out, st')" by simp
      then have "effect st1 out st'" by (rule Cons.IH)
      with e1 True show ?thesis by (auto intro: effect_trans)
    next
      case False
      with Cons.prems a \<open>Has index target\<close> s have "out = out1 \<and> st' = st1" by (cases out1) auto
      with e1 show ?thesis by simp
    qed
  qed
qed

lemma ended_single_ok: "failure ev = None \<Longrightarrow> ended out [ev]"
  by (simp add: ended_def failures_def)

lemma ended_single_fail: "failure ev = Some err \<Longrightarrow> ended (Abort err) [ev]"
  unfolding ended_def by (intro disjI2 exI[of _ "[]"] exI[of _ ev] exI[of _ err]) simp

lemma effect_blob_fail:
  "effect st (Abort err) (st\<lparr>calls := calls st @ [BlobIndexFind c r u rng (Inl err)]\<rparr>)"
  unfolding effect_def
  by (intro exI[of _ "[BlobIndexFind c r u rng (Inl err)]"])
     (simp add: ended_single_fail findJobs_def fetchedClaims_def fetchedIndexes_def)

lemma effect_blob_ok:
  "effect st out (st\<lparr>calls := calls st @ [BlobIndexFind c r u rng (Inr index)],
      state := snd (CmpSwap (\<lambda>s. Indexes (qr s) c = None)
                 (\<lambda>s. s\<lparr>qr := (qr s)\<lparr>Indexes := (Indexes (qr s))(c \<mapsto> index)\<rparr>\<rparr>) (state st))\<rparr>)"
  unfolding effect_def
  by (intro exI[of _ "[BlobIndexFind c r u rng (Inr index)]"])
     (auto simp: ended_single_ok findJobs_def fetchedClaims_def fetchedIndexes_def CmpSwap_def)

lemma effect_claim_fail:
  "effect st (Abort err) (st\<lparr>calls := calls st @ [LookupClaim c u (Inl err)]\<rparr>)"
  unfolding effect_def
  by (intro exI[of _ "[LookupClaim c u (Inl err)]"])
     (simp add: ended_single_fail findJobs_def fetchedClaims_def fetchedIndexes_def)

lemma effect_claim_ok:
  "effect st out (st\<lparr>calls := calls st @ [LookupClaim c u (Inr claim)],
      state := snd (CmpSwap (\<lambda>s. Claims (qr s) c = None)
                 (\<lambda>s. s\<lparr>qr := (qr s)\<lparr>Claims := (Claims (qr s))(c \<mapsto> claim)\<rparr>\<rparr>) (state st))\<rparr>)"
  unfolding effect_def
  by (intro exI[of _ "[LookupClaim c u (Inr claim)]"])
     (auto simp: ended_single_ok findJobs_def fetchedClaims_def fetchedIndexes_def CmpSwap_def)

lemma effect_decode_fail:
  "effect st (Abort err) (st\<lparr>calls := calls st @ [UnmarshalBinary m (Inl err)]\<rparr>)"
  unfolding effect_def
  by (intro exI[of _ "[UnmarshalBinary m (Inl err)]"])
     (simp add: ended_single_fail findJobs_def fetchedClaims_def fetchedIndexes_def)

lemma effect_decode_ok:
  "effect st out (st\<lparr>calls := calls st @ [UnmarshalBinary m (Inr ps)]\<rparr>)"
  unfolding effect_def
  by (intro exI[of _ "[UnmarshalBinary m (Inr ps)]"])
     (simp add: ended_single_ok findJobs_def fetchedClaims_def fetchedIndexes_def)

lemma handleTyped_effect:
  "handleTyped svc j result provider protocol st = (out, st') \<Longrightarrow> effect st out st'"
proof (cases protocol)
  case (LocationCommitmentMetadata shard rng claim)
  assume h: "handleTyped svc j result provider protocol st = (out, st')"
  show ?thesis
  proof (cases "indexForMh j")
    case None
    with h LocationCommitmentMetadata show ?thesis by simp
  next
    case (Some target)
    show ?thesis
    proof (cases "indexProviderRecord j")
      case None
      with h LocationCommitmentMetadata Some show ?thesis by (simp add: Let_def)
    next
      case (Some ipr)
      define u where "u = fetchRetrievalUrl provider
        (case shard of None \<Rightarrow> NewCidV1 Raw (mh j) | Some c \<Rightarrow> c)"
      define found where "found = blobIndexLookup svc (calls st) (ContextID result) ipr u rng"
      show ?thesis
      proof (cases found)
        case (Inl err)
        with h LocationCommitmentMetadata \<open>indexForMh j = Some target\<close> Some
        have "out = Abort err" "st' = st\<lparr>calls := calls st @ [BlobIndexFind (ContextID result) ipr u rng (Inl err)]\<rparr>"
          by (simp_all add: Let_def u_def found_def)
        then show ?thesis by (simp add: effect_blob_fail)
      next
        case (Inr index)
        define st2 where "st2 = st\<lparr>calls := calls st @ [BlobIndexFind (ContextID result) ipr u rng (Inr index)],
          state := snd (CmpSwap (\<lambda>s. Indexes (qr s) (ContextID result) = None)
                 (\<lambda>s. s\<lparr>qr := (qr s)\<lparr>Indexes := (Indexes (qr s))(ContextID result \<mapsto> index)\<rparr>\<rparr>) (state st))\<rparr>"
        have e1: "effect st Done st2" unfolding st2_def by (rule effect_blob_ok)
        from h LocationCommitmentMetadata \<open>indexForMh j = Some target\<close> Some Inr
        have "spawnShards svc target (Shards index) st2 = (out, st')"
          by (simp add: Let_def u_def found_def st2_def)
        then have "effect st2 out st'" by (rule spawnShards_effect)
        with e1 show ?thesis by (rule effect_trans)
      qed
    qed
  qed
qed (auto intro: spawn_effect split: if_splits)

lemma handleProtocol_effect:
  assumes h: "handleProtocol svc j result protocol st = (out, st')"
  shows "effect st out st'"
proof (cases "GetClaimCid protocol")
  case None
  with h show ?thesis by (simp add: handleProtocol_def)
next
  case (Some claimCid)
  show ?thesis
  proof (cases "Provider result")
    case None
    with h Some show ?thesis by (simp add: handleProtocol_def)
  next
    case (Some provider)
    define u where "u = fetchClaimUrl provider claimCid"
    define found where "found = claimLookup svc (calls st) claimCid u"
    show ?thesis
    proof (cases found)
      case (Inl err)
      with h \<open>GetClaimCid protocol = Some claimCid\<close> Some
      have "out = Abort err" "st' = st\<lparr>calls := calls st @ [LookupClaim claimCid u (Inl err)]\<rparr>"
        by (simp_all add: handleProtocol_def Let_def u_def found_def)
      then show ?thesis by (simp add: effect_claim_fail)
    next
      case (Inr claim)
      define st2 where "st2 = st\<lparr>calls := calls st @ [LookupClaim claimCid u (Inr claim)],
        state := snd (CmpSwap (\<lambda>s. Claims (qr s) claimCid = None)
                 (\<lambda>s. s\<lparr>qr := (qr s)\<lparr>Claims := (Claims (qr s))(claimCid \<mapsto> claim)\<rparr>\<rparr>) (state st))\<rparr>"
      have e1: "effect st Done st2" unfolding st2_def by (rule effect_claim_ok)
      from h \<open>GetClaimCid protocol = Some claimCid\<close> Some Inr
      have "handleTyped svc j result provider protocol st2 = (out, st')"
        by (simp add: handleProtocol_def Let_def u_def found_def st2_def)
      then have "effect st2 out st'" by (rule handleTyped_effect)
      with e1 show ?thesis by (rule effect_trans)
    qed
  qed
qed

lemma handleProtocols_effect:
  "handleProtocols svc j result protocols st = (out, st') \<Longrightarrow> effect st out st'"
proof (induction protocols arbitrary: st)
  case Nil
  then show ?case by simp
next
  case (Cons p ps)
  obtain out1 st1 where s: "handleProtocol svc j result p st = (out1, st1)" by fastforce
  then have e1: "effect st out1 st1" by (rule handleProtocol_effect)
  show ?case
  proof (cases "out1 = Done")
    case True
    with Cons.prems s have "handleProtocols svc j result ps st1 = (out, st')" by simp
    then have "effect st1 out st'" by (rule Cons.IH)
    with e1 True show ?thesis by (auto intro: effect_trans)
  next
    case False
    with Cons.prems s have "out = out1 \<and> st' = st1" by (cases out1) auto
    with e1 show ?thesis by simp
  qed
qed

lemma handleResults_effect:
  "handleResults svc j results st = (out, st') \<Longrightarrow> effect st out st'"
proof (induction results arbitrary: st)
  case Nil
  then show ?case by simp
next
  case (Cons r rs)
  show ?case
  proof (cases "unmarshalBinary svc (Metadata r)")
    case (Inl err)
    with Cons.prems show ?thesis by (auto simp: Let_def effect_decode_fail)
  next
    case (Inr ps)
    define st1 where "st1 = st\<lparr>calls := calls st @ [UnmarshalBinary (Metadata r) (Inr ps)]\<rparr>"
    have e0: "effect st Done st1" unfolding st1_def by (rule effect_decode_ok)
    obtain out2 st2 where s: "handleProtocols svc j r ps st1 = (out2, st2)" by fastforce
    then have "effect st1 out2 st2" by (rule handleProtocols_effect)
    with e0 have e2: "effect st out2 st2" by (rule effect_trans)
    show ?thesis
    proof (cases "out2 = Done")
      case True
      with Cons.prems Inr s have "handleResults svc j rs st2 = (out, st')"
        by (simp add: Let_def st1_def)
      then have "effect st2 out st'" by (rule Cons.IH)
      with e2 True show ?thesis by (auto intro: effect_trans)
    next
      case False
      with Cons.prems Inr s have "out = out2 \<and> st' = st2"
        by (cases out2) (auto simp: Let_def st1_def)
      with e2 show ?thesis by simp
    qed
  qed
qed

section \<open>Invariants of the handler and of the walk\<close>

lemma jobHandler_visited:
  "key j \<in> visits (state st) \<Longrightarrow> jobHandler svc j st = (Done, st)"
  by (simp add: jobHandler_def CmpSwap_def)

lemma jobHandler_summary:
  fixes st :: "('p, 'd) hstate"
  assumes h: "jobHandler svc j st = (out, st')" and new: "key j \<notin> visits (state st)"
  shows "\<exists>log. calls st' = calls st @ log \<and> findJobs log = [j] \<and> ended out log \<and>
        visits (state st') = insert (key j) (visits (state st)) \<and>
        dom (Claims (qr (state st'))) = dom (Claims (qr (state st))) \<union> set (fetchedClaims log) \<and>
        dom (Indexes (qr (state st'))) =
          dom (Indexes (qr (state st))) \<union> set (fetchedIndexes log)"
proof -
  define st1 where "st1 = st\<lparr>state := (state st)\<lparr>visits := insert (key j) (visits (state st))\<rparr>\<rparr>"
  define k where "k = \<lparr>Hash = mh j, Spaces = Subject (Match (q (state st1))),
                    TargetClaims = targetClaims (jobType j)\<rparr>"
  define found where "found = providerIndex svc (calls st1) k"
  define ev :: "('p, 'd) event" where "ev = ProviderIndexFind j k found"
  define st2 where "st2 = st1\<lparr>calls := calls st1 @ [ev]\<rparr>"
  have basics: "findJobs [ev] = [j]" "fetchedClaims [ev] = []" "fetchedIndexes [ev] = []"
    by (simp_all add: ev_def findJobs_def fetchedClaims_def fetchedIndexes_def)
  show ?thesis
  proof (cases found)
    case (Inl err)
    with h new have "out = Abort err" "st' = st2"
      by (simp_all add: jobHandler_def CmpSwap_def Let_def st2_def ev_def found_def k_def st1_def)
    moreover have "ended (Abort err) [ev]"
      using Inl by (intro ended_single_fail) (simp add: ev_def)
    ultimately show ?thesis using basics
      by (intro exI[of _ "[ev]"]) (simp add: st2_def st1_def)
  next
    case (Inr results)
    with h new have "handleResults svc j results st2 = (out, st')"
      by (simp add: jobHandler_def CmpSwap_def Let_def st2_def ev_def found_def k_def st1_def)
    then have "effect st2 out st'" by (rule handleResults_effect)
    then obtain log where log: "calls st' = calls st2 @ log" "findJobs log = []" "ended out log"
        "visits (state st') = visits (state st2)"
        "dom (Claims (qr (state st'))) = dom (Claims (qr (state st2))) \<union> set (fetchedClaims log)"
        "dom (Indexes (qr (state st'))) = dom (Indexes (qr (state st2))) \<union> set (fetchedIndexes log)"
      unfolding effect_def by blast
    have "failures [ev] = []" using Inr by (simp add: failures_def ev_def)
    from this log(3) have "ended out ([ev] @ log)" by (rule ended_append)
    with log show ?thesis
      by (intro exI[of _ "[ev] @ log"])
         (simp add: st2_def st1_def ev_def findJobs_def fetchedClaims_def fetchedIndexes_def)
  qed
qed

lemma inv_initialState: "walkInv (initialState query)"
  by (simp add: walkInv_def initialState_def)

lemma jobHandler_inv:
  assumes h: "jobHandler svc j st = (out, st')" and i: "walkInv st"
  shows "walkInv st'"
proof (cases "key j \<in> visits (state st)")
  case True
  with h i show ?thesis by (simp add: jobHandler_visited)
next
  case False
  from jobHandler_summary[OF h False] obtain log where log: "calls st' = calls st @ log"
      "findJobs log = [j]"
      "visits (state st') = insert (key j) (visits (state st))"
      "dom (Claims (qr (state st'))) = dom (Claims (qr (state st))) \<union> set (fetchedClaims log)"
      "dom (Indexes (qr (state st'))) = dom (Indexes (qr (state st))) \<union> set (fetchedIndexes log)"
    by blast
  from i False have "key j \<notin> key ` set (findJobs (calls st))" by (simp add: walkInv_def)
  with i log show ?thesis by (simp add: walkInv_def)
qed


lemma Walk_inv:
  "Walk fuel svc st = (out, st') \<Longrightarrow> walkInv st \<Longrightarrow> walkInv st'"
proof (induction fuel arbitrary: st)
  case 0
  then show ?case by (auto split: list.splits)
next
  case (Suc fuel)
  show ?case
  proof (cases "spawned st")
    case Nil
    with Suc.prems show ?thesis by simp
  next
    case (Cons j queue)
    obtain out1 st1 where s: "jobHandler svc j (st\<lparr>spawned := queue\<rparr>) = (out1, st1)" by fastforce
    have "walkInv (st\<lparr>spawned := queue\<rparr>)" using Suc.prems(2) by (simp add: walkInv_def)
    with s have i1: "walkInv st1" by (rule jobHandler_inv)
    show ?thesis
    proof (cases "out1 = Done")
      case True
      with Suc.prems(1) Cons s have "Walk fuel svc st1 = (out, st')" by simp
      then show ?thesis using i1 by (rule Suc.IH)
    next
      case False
      with Suc.prems(1) Cons s have "st' = st1" by (cases out1) auto
      with i1 show ?thesis by simp
    qed
  qed
qed


lemma Walk_extends:
  "Walk fuel svc st = (out, st') \<Longrightarrow> \<exists>log. calls st' = calls st @ log"
proof (induction fuel arbitrary: st)
  case 0
  then show ?case by (auto split: list.splits)
next
  case (Suc fuel)
  show ?case
  proof (cases "spawned st")
    case Nil
    with Suc.prems show ?thesis by simp
  next
    case (Cons j queue)
    obtain out1 st1 where s: "jobHandler svc j (st\<lparr>spawned := queue\<rparr>) = (out1, st1)" by fastforce
    have "\<exists>log. calls st1 = calls st @ log"
    proof (cases "key j \<in> visits (state st)")
      case True
      with s show ?thesis by (auto simp: jobHandler_visited)
    next
      case False
      then have "key j \<notin> visits (state (st\<lparr>spawned := queue\<rparr>))" by simp
      from jobHandler_summary[OF s this] show ?thesis by auto
    qed
    then obtain log1 where l1: "calls st1 = calls st @ log1" by blast
    show ?thesis
    proof (cases "out1 = Done")
      case True
      with Suc.prems(1) Cons s have "Walk fuel svc st1 = (out, st')" by simp
      then have "\<exists>log. calls st' = calls st1 @ log" by (rule Suc.IH)
      with l1 show ?thesis by auto
    next
      case False
      with Suc.prems(1) Cons s have "st' = st1" by (cases out1) auto
      with l1 show ?thesis by simp
    qed
  qed
qed

section \<open>Evaluating the small backend\<close>

lemmas scenario_defs = initialState_def queryFor_def jobHandler_def CmpSwap_def key_def Let_def
    scenarioServices_def failingServices_def scenarioFind_def scenarioDecode_def scenarioIndex_def
    targetClaims_def standardJobType_def
    locationJobType_def equalsOrLocationJobType_def recordEquals_def recordIndex_def recordLocation_def
    handleProtocol_def fetchClaimUrl_def fetchRetrievalUrl_def spawn_def
    jobForIndex_def jobStandard_def Shards_def Has_def NewCidV1_def Raw_def

section \<open>Deduplication of jobs\<close>

lemma distinct_map_filter_one:
  "distinct (map f xs) \<Longrightarrow> x \<in> set xs \<Longrightarrow> length (filter (\<lambda>y. f y = f x) xs) = 1"
proof (induction xs)
  case Nil
  then show ?case by simp
next
  case (Cons a xs)
  show ?case
  proof (cases "f a = f x")
    case True
    with Cons.prems(1) have "f x \<notin> f ` set xs" by simp
    then have "\<forall>y \<in> set xs. f y \<noteq> f x" by (metis imageI)
    then have "filter (\<lambda>y. f y = f x) xs = []" by (simp add: filter_empty_conv)
    with True show ?thesis by simp
  next
    case False
    with Cons show ?thesis by auto
  qed
qed

lemma Walk_first_job:
  fixes svc :: "('p, 'd) services"
  assumes "Walk (Suc fuel) svc (initialState query) = (out, st')" and "Hashes query = h # hs"
  shows "\<lparr>mh = h, indexForMh = None, indexProviderRecord = None, jobType = standardJobType\<rparr>
           \<in> set (findJobs (calls st'))"
proof -
  define j :: "'p job" where "j = \<lparr>mh = h, indexForMh = None, indexProviderRecord = None, jobType = standardJobType\<rparr>"
  define st0 :: "('p, 'd) hstate" where "st0 = (initialState query)\<lparr>spawned := map (\<lambda>h. \<lparr>mh = h, indexForMh = None, indexProviderRecord = None,
                           jobType = standardJobType\<rparr>) hs\<rparr>"
  have sp: "spawned (initialState query :: ('p, 'd) hstate) = j # spawned st0"
    using assms(2) by (simp add: initialState_def j_def st0_def)
  have st0: "(initialState query :: ('p, 'd) hstate)\<lparr>spawned := spawned st0\<rparr> = st0"
    by (simp add: st0_def)
  obtain out1 st1 where s: "jobHandler svc j st0 = (out1, st1)" by fastforce
  have "key j \<notin> visits (state st0)" by (simp add: st0_def initialState_def)
  from jobHandler_summary[OF s this] obtain log where log: "calls st1 = calls st0 @ log" "findJobs log = [j]"
    by blast
  then have in1: "j \<in> set (findJobs (calls st1))" by simp
  show ?thesis
  proof (cases "out1 = Done")
    case True
    with assms(1) sp s st0 have "Walk fuel svc st1 = (out, st')" by simp
    then obtain log' where "calls st' = calls st1 @ log'" using Walk_extends by blast
    with in1 show ?thesis by (simp add: j_def)
  next
    case False
    with assms(1) sp s st0 have "st' = st1" by (cases out1) auto
    with in1 show ?thesis by (simp add: j_def)
  qed
qed

text \<open>
  C2 (as stated) fails in its last part: the key of a job includes its kind, so a query
  for \<open>[H2, H2]\<close> can call \<^verbatim>\<open>ProviderIndex.Find\<close> for \<open>H2\<close> twice.  In the small backend
  the standard job for \<open>H2\<close> finds an equals claim that names \<open>H2\<close> under the context
  identifier \<open>H2\<close>, and spawns a location job for \<open>H2\<close>, which has another key: the
  query returns nil after two calls of \<^verbatim>\<open>Find\<close> for \<open>H2\<close>.
\<close>

theorem find_twice_for_one_hash_counterexample:
  "fst (Walk 3 scenarioServices (initialState (queryFor [''H2'', ''H2'']))) = Some Done \<and>
   findHashes (calls (snd (Walk 3 scenarioServices (initialState (queryFor [''H2'', ''H2''])))))
     = [''H2'', ''H2'']"
  by (simp add: eval_nat_numeral scenario_defs findHashes_def)

text \<open>
  C2 (amended): within a single query run by the serial walker, the jobs whose handlers
  get past the visits check and call \<^verbatim>\<open>ProviderIndex.Find\<close> have pairwise different
  keys, however long the walk has run; in particular, for a query with
  \<open>Hashes = [h, h]\<close>, once the walk has taken its first job, exactly one call of
  \<^verbatim>\<open>ProviderIndex.Find\<close> comes from a job with the key of the initial job for \<open>h\<close>.
\<close>

theorem handler_body_once_per_key:
  fixes svc :: "('p, 'd) services"
  shows "distinct (map key (findJobs (calls (snd (Walk fuel svc (initialState query)))))) \<and>
    (Hashes query = [h, h] \<and> 0 < fuel \<longrightarrow>
       length (filter (\<lambda>j. key j = key \<lparr>mh = h, indexForMh = None,
                 indexProviderRecord = (None :: 'p ProviderResult option), jobType = standardJobType\<rparr>)
         (findJobs (calls (snd (Walk fuel svc (initialState query)))))) = 1)"
proof (intro conjI impI)
  obtain out st' where w: "Walk fuel svc (initialState query) = (out, st')" by fastforce
  then have "walkInv st'" using inv_initialState by (rule Walk_inv)
  then have d: "distinct (map key (findJobs (calls st')))" by (simp add: walkInv_def)
  with w show "distinct (map key (findJobs (calls (snd (Walk fuel svc (initialState query))))))"
    by simp
  assume a: "Hashes query = [h, h] \<and> 0 < fuel"
  then obtain fuel' where f: "fuel = Suc fuel'" by (cases fuel) auto
  from w a have "\<lparr>mh = h, indexForMh = None, indexProviderRecord = None, jobType = standardJobType\<rparr>
           \<in> set (findJobs (calls st'))"
    unfolding f by (intro Walk_first_job) auto
  with d have "length (filter (\<lambda>j. key j = key \<lparr>mh = h, indexForMh = None,
                 indexProviderRecord = (None :: 'p ProviderResult option), jobType = standardJobType\<rparr>)
         (findJobs (calls st'))) = 1"
    by (rule distinct_map_filter_one)
  with w show "length (filter (\<lambda>j. key j = key \<lparr>mh = h, indexForMh = None,
                 indexProviderRecord = (None :: 'p ProviderResult option), jobType = standardJobType\<rparr>)
         (findJobs (calls (snd (Walk fuel svc (initialState query)))))) = 1"
    by simp
qed

theorem handler_body_once_per_key_witness:
  "Hashes (queryFor [''H2'', ''H2'']) = [''H2'', ''H2''] \<and> (0 :: nat) < 3 \<and>
   length (filter (\<lambda>j. key j = key (jobStandard ''H2''))
     (findJobs (calls (snd (Walk 3 scenarioServices (initialState (queryFor [''H2'', ''H2''])))))))
     = 1"
  using handler_body_once_per_key[of 3 scenarioServices "queryFor [''H2'', ''H2'']" "''H2''"]
  by (simp add: queryFor_def jobStandard_def)

section \<open>Errors and partial results\<close>





section \<open>Protocol blocks\<close>

text \<open>
  C7: a protocol block that does not carry a claim CID is skipped: the handler returns
  from it with nil and with the state, the spawned jobs and the history unchanged, and
  the loop over the blocks of a record behaves as if the block were not in the list.
\<close>

theorem unrecognised_protocol_skipped:
  assumes "GetClaimCid protocol = None"
  shows "handleProtocol svc j result protocol st = (Done, st) \<and>
         handleProtocols svc j result (before @ protocol # after) st =
           handleProtocols svc j result (before @ after) st"
proof
  show skip: "handleProtocol svc j result protocol st = (Done, st)" for st
    using assms by (simp add: handleProtocol_def)
  show "handleProtocols svc j result (before @ protocol # after) st =
           handleProtocols svc j result (before @ after) st"
  proof (induction before arbitrary: st)
    case Nil
    show ?case by (simp add: skip)
  next
    case (Cons p ps)
    show ?case
      by (cases "handleProtocol svc j result p st") (auto simp: Cons.IH split: outcome.splits)
  qed
qed

theorem unrecognised_protocol_skipped_witness:
  "GetClaimCid OtherProtocol = None \<and>
   handleProtocols scenarioServices jobForIndex recordLocation
     ([] @ OtherProtocol # [LocationCommitmentMetadata None None (Cid 1 Raw ''C2'')])
     (initialState (queryFor [''H1''])) =
   handleProtocols scenarioServices jobForIndex recordLocation
     ([] @ [LocationCommitmentMetadata None None (Cid 1 Raw ''C2'')])
     (initialState (queryFor [''H1'']))"
  using unrecognised_protocol_skipped
    [of OtherProtocol scenarioServices jobForIndex recordLocation "initialState (queryFor [''H1''])"
        "[]" "[LocationCommitmentMetadata None None (Cid 1 Raw ''C2'')]"]
  by simp

text \<open>
  C4: when the handler processes an equals claim of a record (the provider of the
  record is present and the claim has been fetched), it hands exactly one job to
  \<^verbatim>\<open>spawn\<close>: a location job without index fields, for the multihash of \<open>equals\<close> if that
  differs from the multihash of the job, and for the context identifier of the record
  otherwise.
\<close>

theorem equals_claim_spawns_location_job:
  assumes "Provider result = Some provider"
    and "claimLookup svc (calls st) claim (fetchClaimUrl provider claim) = Inr d"
  shows "spawned (snd (handleProtocol svc j result (EqualsClaimMetadata equals claim) st)) =
           spawned st @
           [\<lparr>mh = (if cid.Hash equals \<noteq> mh j then cid.Hash equals else ContextID result),
             indexForMh = None, indexProviderRecord = None, jobType = locationJobType\<rparr>]"
  using assms
  by (simp add: handleProtocol_def Let_def spawn_def split: option.splits)

theorem equals_claim_spawns_location_job_witness:
  "Provider recordEquals = Some ''peer-c'' \<and>
   spawned (snd (handleProtocol scenarioServices (jobStandard ''H1'') recordEquals
       (EqualsClaimMetadata (Cid 1 Raw ''H2'') (Cid 1 Raw ''C3''))
       (initialState (queryFor [])))) =
     [\<lparr>mh = ''H2'', indexForMh = None, indexProviderRecord = None, jobType = locationJobType\<rparr>]"
  using equals_claim_spawns_location_job
    [of recordEquals "''peer-c''" scenarioServices "initialState (queryFor [])"
        "Cid 1 Raw ''C3''" "''claim''" "jobStandard ''H1''" "Cid 1 Raw ''H2''"]
  by (simp add: recordEquals_def scenarioServices_def initialState_def queryFor_def
      jobStandard_def)

section \<open>Location commitments of an index\<close>

lemma spawnShards_calls:
  "calls (snd (spawnShards svc target shards st)) = calls st"
proof (induction shards arbitrary: st)
  case Nil
  show ?case by simp
next
  case (Cons a shards)
  obtain shard index where a: "a = (shard, index)" by (cases a)
  show ?case
    by (cases "spawnResult svc \<lparr>mh = shard, indexForMh = None, indexProviderRecord = None,
                         jobType = equalsOrLocationJobType\<rparr>")
       (simp_all add: a spawn_def Cons.IH)
qed

text \<open>
  C3 (as stated) fails: the provider record handed to \<^verbatim>\<open>BlobIndexLookup.Find\<close> is the one
  the job carries in \<open>indexProviderRecord\<close>, not the record the location commitment was
  decoded from.  For the job that the index claim of \<open>recordIndex\<close> spawned, the location
  commitment of \<open>recordLocation\<close> makes the handler call \<^verbatim>\<open>Find\<close> with the context
  identifier of \<open>recordLocation\<close> and with the record \<open>recordIndex\<close>.
\<close>

theorem index_lookup_record_counterexample:
  "calls (snd (handleProtocol scenarioServices jobForIndex recordLocation
       (LocationCommitmentMetadata None None (Cid 1 Raw ''C2''))
       (initialState (queryFor [''H1'']))))
     = [LookupClaim (Cid 1 Raw ''C2'') (URL []) (Inr ''claim''),
        BlobIndexFind (ContextID recordLocation) recordIndex (URL []) None (Inr scenarioIndex)]
   \<and> recordIndex \<noteq> recordLocation"
  by (simp add: scenario_defs spawnShards_calls)

text \<open>
  C3 (amended): when the handler processes a location commitment decoded from the
  provider record \<open>result\<close> (its provider is present and the claim has been fetched) and
  the job has an \<open>indexForMh\<close>, it calls \<^verbatim>\<open>BlobIndexLookup.Find\<close> with the context
  identifier of \<open>result\<close>, with the provider record that the job carries in
  \<open>indexProviderRecord\<close> (the record the index claim was decoded from), with the
  retrieval URL derived from the provider of \<open>result\<close> and the shard (the raw CID of the
  job's multihash if the block names no shard), and with the byte range of the block;
  it makes no other call after fetching the claim.
\<close>

theorem location_commitment_index_lookup:
  assumes "Provider result = Some provider"
    and "claimLookup svc (calls st) claim (fetchClaimUrl provider claim) = Inr d"
    and "indexForMh j = Some target"
    and "indexProviderRecord j = Some ipr"
  shows "calls (snd (handleProtocol svc j result (LocationCommitmentMetadata shard rng claim) st)) =
           calls st @
           [LookupClaim claim (fetchClaimUrl provider claim) (Inr d),
            BlobIndexFind (ContextID result) ipr
              (fetchRetrievalUrl provider
                 (case shard of None \<Rightarrow> NewCidV1 Raw (mh j) | Some c \<Rightarrow> c))
              rng
              (blobIndexLookup svc
                 (calls st @ [LookupClaim claim (fetchClaimUrl provider claim) (Inr d)])
                 (ContextID result) ipr
                 (fetchRetrievalUrl provider
                    (case shard of None \<Rightarrow> NewCidV1 Raw (mh j) | Some c \<Rightarrow> c))
                 rng)]"
  using assms
  by (simp add: handleProtocol_def Let_def spawnShards_calls split: sum.splits)

theorem location_commitment_index_lookup_witness:
  "Provider recordLocation = Some ''peer-b'' \<and>
   indexProviderRecord jobForIndex = Some recordIndex \<and>
   calls (snd (handleProtocol scenarioServices jobForIndex recordLocation
       (LocationCommitmentMetadata None (Some (0, Some 8)) (Cid 1 Raw ''C2''))
       (initialState (queryFor [''H1'']))))
     = [LookupClaim (Cid 1 Raw ''C2'') (URL []) (Inr ''claim''),
        BlobIndexFind ''ctx-location'' recordIndex (URL []) (Some (0, Some 8))
          (Inr scenarioIndex)]"
  using location_commitment_index_lookup
    [of recordLocation "''peer-b''" scenarioServices "initialState (queryFor [''H1''])"
        "Cid 1 Raw ''C2''" "''claim''" jobForIndex "''H1''" recordIndex None "Some (0, Some 8)"]
  by (simp add: recordLocation_def scenarioServices_def initialState_def queryFor_def
      jobForIndex_def fetchClaimUrl_def fetchRetrievalUrl_def)

lemma untilError_no_error: "\<forall>j \<in> set js. r j = None \<Longrightarrow> untilError r js = js"
  by (induction js) auto

lemma firstError_no_error: "\<forall>j \<in> set js. r j = None \<Longrightarrow> firstError r js = None"
  by (induction js) auto

lemma spawnShards_until_error:
  "spawnShards svc target shards st =
     ((case firstError (spawnResult svc)
              (map (\<lambda>(shardKey, shardEntries).
                      \<lparr>mh = shardKey, indexForMh = None, indexProviderRecord = None,
                       jobType = equalsOrLocationJobType\<rparr>)
                 (filter (\<lambda>(shardKey, shardEntries). Has shardEntries target) shards)) of
         None \<Rightarrow> Done | Some err \<Rightarrow> Abort err),
      st\<lparr>spawned := spawned st @
           untilError (spawnResult svc)
             (map (\<lambda>(shardKey, shardEntries).
                     \<lparr>mh = shardKey, indexForMh = None, indexProviderRecord = None,
                      jobType = equalsOrLocationJobType\<rparr>)
                (filter (\<lambda>(shardKey, shardEntries). Has shardEntries target) shards))\<rparr>)"
proof (induction shards arbitrary: st)
  case Nil
  show ?case by simp
next
  case (Cons a shards)
  obtain shardKey shardEntries where a: "a = (shardKey, shardEntries)" by (cases a)
  show ?case
    by (cases "spawnResult svc \<lparr>mh = shardKey, indexForMh = None, indexProviderRecord = None,
                         jobType = equalsOrLocationJobType\<rparr>")
       (simp_all add: a spawn_def Cons.IH)
qed

text \<open>
  C5 (as stated) fails when \<^verbatim>\<open>spawn\<close> returns an error: the loop over the shards returns
  at the first such error, and the shards enumerated after it spawn nothing, whether or
  not they contain the multihash.  With the index of three shards and a \<^verbatim>\<open>spawn\<close> that
  fails for \<open>S1\<close>, the shard \<open>S3\<close> contains \<open>H1\<close>, yet the only job handed to \<^verbatim>\<open>spawn\<close>
  is the one for \<open>S1\<close>, and the handler returns the error.
\<close>

theorem shards_after_spawn_error_counterexample:
  "Shards threeShardIndex =
     [(''S1'', [(''H1'', (0, 10))]), (''S2'', [(''Hy'', (0, 10))]),
      (''S3'', [(''H1'', (20, 10))])] \<and>
   Has [(''H1'', (20, 10))] ''H1'' \<and>
   spawned (snd (handleProtocol cancelledServices jobForIndex recordLocation
       (LocationCommitmentMetadata None None (Cid 1 Raw ''C2''))
       (initialState (queryFor [])))) =
     [\<lparr>mh = ''S1'', indexForMh = None, indexProviderRecord = None,
       jobType = equalsOrLocationJobType\<rparr>] \<and>
   fst (handleProtocol cancelledServices jobForIndex recordLocation
       (LocationCommitmentMetadata None None (Cid 1 Raw ''C2''))
       (initialState (queryFor []))) = Abort (Err ''context canceled'')"
  by (simp add: scenario_defs cancelledServices_def threeShardIndex_def)

text \<open>
  C5 (amended): when the handler has fetched the index for a location commitment of a
  job with \<open>indexForMh = Some target\<close>, it goes through the shards in the order of the
  enumeration and hands to \<^verbatim>\<open>spawn\<close> one job of kind \<open>equals_or_location\<close> for each shard
  whose entries contain \<open>target\<close>, up to and including the first job for which \<^verbatim>\<open>spawn\<close>
  returns an error; it then returns that error, and the shards after it spawn nothing.
  Shards whose entries do not contain \<open>target\<close> never spawn anything.  If \<^verbatim>\<open>spawn\<close>
  returns no error, the handler returns nil from the block and a shard of the index has
  its job spawned if and only if its entries contain \<open>target\<close>.
\<close>

theorem shards_containing_target_spawned:
  assumes "Provider result = Some provider"
    and "claimLookup svc (calls st) claim (fetchClaimUrl provider claim) = Inr d"
    and "indexForMh j = Some target"
    and "indexProviderRecord j = Some ipr"
    and "blobIndexLookup svc
           (calls st @ [LookupClaim claim (fetchClaimUrl provider claim) (Inr d)])
           (ContextID result) ipr
           (fetchRetrievalUrl provider
              (case shard of None \<Rightarrow> NewCidV1 Raw (mh j) | Some c \<Rightarrow> c))
           rng = Inr index"
  shows "spawned (snd (handleProtocol svc j result (LocationCommitmentMetadata shard rng claim) st)) =
           spawned st @
           untilError (spawnResult svc)
             (map (\<lambda>(shardKey, shardEntries).
                     \<lparr>mh = shardKey, indexForMh = None, indexProviderRecord = None,
                      jobType = equalsOrLocationJobType\<rparr>)
                (filter (\<lambda>(shardKey, shardEntries). Has shardEntries target) (Shards index)))
         \<and>
         fst (handleProtocol svc j result (LocationCommitmentMetadata shard rng claim) st) =
           (case firstError (spawnResult svc)
                   (map (\<lambda>(shardKey, shardEntries).
                           \<lparr>mh = shardKey, indexForMh = None, indexProviderRecord = None,
                            jobType = equalsOrLocationJobType\<rparr>)
                      (filter (\<lambda>(shardKey, shardEntries). Has shardEntries target)
                         (Shards index))) of
              None \<Rightarrow> Done | Some err \<Rightarrow> Abort err)
         \<and>
         ((\<forall>shardKey \<in> fst ` set (Shards index).
             spawnResult svc \<lparr>mh = shardKey, indexForMh = None, indexProviderRecord = None,
                               jobType = equalsOrLocationJobType\<rparr> = None) \<longrightarrow>
          fst (handleProtocol svc j result (LocationCommitmentMetadata shard rng claim) st) = Done
          \<and>
          spawned (snd (handleProtocol svc j result (LocationCommitmentMetadata shard rng claim) st)) =
            spawned st @
            map (\<lambda>(shardKey, shardEntries).
                   \<lparr>mh = shardKey, indexForMh = None, indexProviderRecord = None,
                    jobType = equalsOrLocationJobType\<rparr>)
              (filter (\<lambda>(shardKey, shardEntries). Has shardEntries target) (Shards index))
          \<and>
          (distinct (map fst (Shards index)) \<longrightarrow>
           (\<forall>(shardKey, shardEntries) \<in> set (Shards index).
              \<lparr>mh = shardKey, indexForMh = None, indexProviderRecord = None,
               jobType = equalsOrLocationJobType\<rparr>
                \<in> set (drop (length (spawned st))
                     (spawned (snd (handleProtocol svc j result
                        (LocationCommitmentMetadata shard rng claim) st))))
              \<longleftrightarrow> Has shardEntries target)))"
proof -
  define jobs where "jobs =
    map (\<lambda>(shardKey, shardEntries).
           \<lparr>mh = shardKey, indexForMh = None,
            indexProviderRecord = (None :: 'a ProviderResult option),
            jobType = equalsOrLocationJobType\<rparr>)
      (filter (\<lambda>(shardKey, shardEntries). Has shardEntries target) (Shards index))"
  define hp where
    "hp = handleProtocol svc j result (LocationCommitmentMetadata shard rng claim) st"
  have run: "spawned (snd hp) = spawned st @ untilError (spawnResult svc) jobs"
    "fst hp = (case firstError (spawnResult svc) jobs of None \<Rightarrow> Done | Some err \<Rightarrow> Abort err)"
    using assms
    by (simp_all add: hp_def jobs_def handleProtocol_def Let_def spawnShards_until_error)
  have quiet: "fst hp = Done \<and> spawned (snd hp) = spawned st @ jobs \<and>
      (distinct (map fst (Shards index)) \<longrightarrow>
        (\<forall>(shardKey, shardEntries) \<in> set (Shards index).
           \<lparr>mh = shardKey, indexForMh = None, indexProviderRecord = None,
            jobType = equalsOrLocationJobType\<rparr>
             \<in> set (drop (length (spawned st)) (spawned (snd hp)))
           \<longleftrightarrow> Has shardEntries target))"
    if none: "\<forall>shardKey \<in> fst ` set (Shards index).
             spawnResult svc \<lparr>mh = shardKey, indexForMh = None, indexProviderRecord = None,
                               jobType = equalsOrLocationJobType\<rparr> = None"
  proof -
    from none have all: "\<forall>job \<in> set jobs. spawnResult svc job = None"
      by (auto simp: jobs_def)
    have sp: "spawned (snd hp) = spawned st @ jobs"
      using run(1) all by (simp add: untilError_no_error)
    have "fst hp = Done"
      using run(2) all by (simp add: firstError_no_error)
    moreover have "distinct (map fst (Shards index)) \<longrightarrow>
        (\<forall>(shardKey, shardEntries) \<in> set (Shards index).
           \<lparr>mh = shardKey, indexForMh = None, indexProviderRecord = None,
            jobType = equalsOrLocationJobType\<rparr>
             \<in> set (drop (length (spawned st)) (spawned (snd hp)))
           \<longleftrightarrow> Has shardEntries target)"
      unfolding sp jobs_def by (auto simp: image_iff dest: eq_key_imp_eq_value)
    ultimately show ?thesis using sp by simp
  qed
  from run quiet show ?thesis
    unfolding hp_def jobs_def by blast
qed

theorem shards_containing_target_spawned_witness:
  "indexForMh jobForIndex = Some ''H1'' \<and>
   Has [(''H1'', (0, 10)), (''Hx'', (10, 10))] ''H1'' \<and> \<not> Has [(''Hy'', (0, 10))] ''H1'' \<and>
   fst (handleProtocol scenarioServices jobForIndex recordLocation
       (LocationCommitmentMetadata None None (Cid 1 Raw ''C2''))
       (initialState (queryFor []))) = Done \<and>
   spawned (snd (handleProtocol scenarioServices jobForIndex recordLocation
       (LocationCommitmentMetadata None None (Cid 1 Raw ''C2''))
       (initialState (queryFor [])))) =
     [\<lparr>mh = ''S1'', indexForMh = None, indexProviderRecord = None,
       jobType = equalsOrLocationJobType\<rparr>]"
  using shards_containing_target_spawned
    [of recordLocation "''peer-b''" scenarioServices "initialState (queryFor [])"
        "Cid 1 Raw ''C2''" "''claim''" jobForIndex "''H1''" recordIndex None None scenarioIndex]
  by (simp add: recordLocation_def scenarioServices_def initialState_def queryFor_def
      jobForIndex_def scenarioIndex_def Shards_def Has_def)

section \<open>The entries iterator\<close>

lemma yieldEntries_cut:
  "yieldEntries yield ds out = (continue, out') \<Longrightarrow>
   cut yield out (map (\<lambda>d. (d, None)) ds @ rest) = (if continue then cut yield out' rest else out')"
  by (induction ds arbitrary: out) (auto split: if_splits)

lemma cut_single: "cut yield out [x] = out @ [x]"
  by simp

lemma cut_all: "\<forall>ys. yield ys \<Longrightarrow> cut yield out xs = out @ xs"
  by (induction xs arbitrary: out) auto

lemma EntriesLoop_chain:
  "entryChain get decode cur chunks end \<Longrightarrow>
   EntriesLoop get decode yield cur out =
     Some (cut yield out
       (map (\<lambda>d. (d, None)) (concat (map entEntries chunks)) @
        (case end of None \<Rightarrow> [] | Some err \<Rightarrow> [([], Some err)])))"
proof (induction arbitrary: out rule: entryChain.induct)
  case chain_nil
  show ?case by (subst EntriesLoop.simps) simp
next
  case (chain_get_fails l err)
  then show ?case by (subst EntriesLoop.simps) simp
next
  case (chain_decode_fails l v err)
  then show ?case by (subst EntriesLoop.simps) simp
next
  case (chain_next l v ent chunks "end")
  obtain continue out' where y: "yieldEntries yield (entEntries ent) out = (continue, out')"
    by fastforce
  from yieldEntries_cut[OF y]
  have c: "cut yield out (map (\<lambda>d. (d, None)) (entEntries ent) @ rest) =
             (if continue then cut yield out' rest else out')" for rest .
  show ?case
    by (subst EntriesLoop.simps) (simp add: chain_next.hyps(1,2) y c chain_next.IH)
qed

text \<open>
  C10: if following the \<open>Next\<close> links from \<open>root\<close> reads the chunks \<open>chunks\<close> and then
  reaches a nil link or a link whose datastore read or decoding fails, the iterator
  returns, and what it has yielded is the sequence of all multihashes of these chunks, in
  order and each with a nil error, followed by exactly one pair \<open>(nil, err)\<close> if the
  chain ended in a failure and by nothing if it ended in a nil link, cut after the
  first pair at which the consumer stops the iteration.  For a consumer that never stops
  it is this whole sequence.
\<close>

theorem Entries_yields_chain:
  assumes "entryChain get decode root chunks end"
  shows "Entries get decode root yield =
           Some (cut yield []
             (map (\<lambda>d. (d, None)) (concat (map entEntries chunks)) @
              (case end of None \<Rightarrow> [] | Some err \<Rightarrow> [([], Some err)])))
         \<and>
         ((\<forall>ys. yield ys) \<longrightarrow>
          Entries get decode root yield =
            Some (map (\<lambda>d. (d, None)) (concat (map entEntries chunks)) @
                  (case end of None \<Rightarrow> [] | Some err \<Rightarrow> [([], Some err)])))"
  using assms by (simp add: Entries_def EntriesLoop_chain cut_all)

lemma store_chain:
  "entryChain storeGet storeDecode (Some ''a'')
     [\<lparr>entEntries = [''h1'', ''h2''], entNext = Some ''b''\<rparr>,
      \<lparr>entEntries = [''h3''], entNext = None\<rparr>] None"
proof -
  have "entryChain storeGet storeDecode (entNext \<lparr>entEntries = [''h3''], entNext = None\<rparr>) [] None"
    by (simp add: chain_nil)
  then have "entryChain storeGet storeDecode (Some ''b'') [\<lparr>entEntries = [''h3''], entNext = None\<rparr>] None"
    by (intro chain_next[where v = "''chunk-b''"])
       (simp_all add: storeGet_def storeDecode_def ChildString_def linksCachePath_def)
  then have "entryChain storeGet storeDecode
      (entNext \<lparr>entEntries = [''h1'', ''h2''], entNext = Some ''b''\<rparr>)
      [\<lparr>entEntries = [''h3''], entNext = None\<rparr>] None"
    by simp
  then show ?thesis
    by (intro chain_next[where v = "''chunk-a''"])
       (simp_all add: storeGet_def storeDecode_def ChildString_def linksCachePath_def)
qed

theorem Entries_yields_chain_witness:
  "entryChain storeGet storeDecode (Some ''a'')
     [\<lparr>entEntries = [''h1'', ''h2''], entNext = Some ''b''\<rparr>,
      \<lparr>entEntries = [''h3''], entNext = None\<rparr>] None \<and>
   Entries storeGet storeDecode (Some ''a'') consumeAll =
     Some [(''h1'', None), (''h2'', None), (''h3'', None)]"
  using store_chain Entries_yields_chain[OF store_chain, of consumeAll]
  by (simp add: consumeAll_def)

end
